theory Spec2Isabelle
  imports Complex_Main "HOL-Library.Word" "HOL-Library.AList"
begin

unbundle bit_operations_syntax

section \<open>Bytes, failures and Python values\<close>

text \<open>
  A \<open>std::string\<close> used as a byte buffer is a list of 8-bit words; keys, messages and
  type descriptors are HOL strings (lists of 8-bit characters).
\<close>

type_synonym byte = "8 word"
type_synonym bytes = "byte list"

definition byte_of_char :: "char \<Rightarrow> byte" where
  "byte_of_char c = of_nat (of_char c)"

definition char_of_byte :: "byte \<Rightarrow> char" where
  "char_of_byte b = char_of (unat b)"

text \<open>
  Modelled from the spec: the failures of the core store (\<open>_core/sharedmemory.hpp\<close>,
  whose code is not available), under the names the design document gives them.
\<close>

datatype core_error = CapacityExceeded | SegmentFull | LifecycleError

text \<open>
  Every way a call can end without a value. The first four are C++ exceptions derived
  from \<open>std::exception\<close>: \<open>nb::key_error\<close>, \<open>std::runtime_error\<close>, an exception raised
  inside a Python callee (\<open>nb::python_error\<close>: pickle, numpy), and a failure of the core.
  \<open>Fault\<close> is no exception: it marks undefined behaviour of the C++ source, a read
  outside the bytes of a buffer or through a null pointer. No \<open>catch\<close> sees it.
\<close>

datatype error =
    KeyError string
  | RuntimeError string
  | PythonError string
  | CoreError core_error
  | Fault

fun is_exception :: "error \<Rightarrow> bool" where
  "is_exception Fault = False"
| "is_exception _ = True"

text \<open>The element type of a DLPack tensor as nanobind exposes it (\<open>nb::dlpack::dtype\<close>).\<close>

datatype dtype_code = dInt | dUInt | dFloat | dOpaqueHandle | dBfloat | dComplex | dBool

record dtype =
  code :: dtype_code
  bits :: "8 word"
  lanes :: "16 word"

text \<open>
  An array as \<open>nb::ndarray<>\<close> sees it: element type, extents, strides (counted in
  elements) and the memory around the pointer \<open>data()\<close>, addressed relative to it.
  No constraint on the strides: \<open>nb::ndarray<>\<close> without an order annotation accepts
  every view.
\<close>

record ndarray =
  arr_dtype :: dtype
  arr_shape :: "nat list"
  arr_strides :: "int list"
  arr_mem :: "int \<Rightarrow> byte"

text \<open>
  A Python object: either an array (what \<open>is_numpy_array\<close> recognises) or any other
  object, of a type \<open>'o\<close> left open.
\<close>

datatype 'o pyobj = PyObj 'o | PyArray ndarray

definition PICKLE_MARKER :: byte where
  "PICKLE_MARKER = 0x00"

definition NUMPY_MARKER :: byte where
  "NUMPY_MARKER = 0x01"

section \<open>Little-endian integers\<close>

text \<open>
  \<open>write_le<T>\<close>: one \<open>push_back\<close> per byte of \<open>T\<close>, lowest byte first. \<open>T\<close> is the
  word type of the value.
\<close>

definition write_le :: "bytes \<Rightarrow> 'a::len word \<Rightarrow> bytes" where
  "write_le buf v =
     fold (\<lambda>i b. b @ [ucast (drop_bit (i * 8) v AND 0xFF)]) [0..<LENGTH('a) div 8] buf"

text \<open>
  \<open>read_le<T>\<close> reads \<open>sizeof(T)\<close> bytes at the pointer and advances it. The pointer is
  the list of the bytes from it to the end of the record; the source does not compare
  against the end, so a read beyond it is a \<open>Fault\<close>.
\<close>

definition read_le :: "bytes \<Rightarrow> error + ('a::len word \<times> bytes)" where
  "read_le ptr =
     (let n = LENGTH('a) div 8 in
      if length ptr < n then Inl Fault
      else Inr (fold (\<lambda>i v. v OR push_bit (i * 8) (ucast (ptr ! i))) [0..<n] 0, drop n ptr))"


section \<open>Arrays\<close>

text \<open>
  The accessors of \<open>nb::ndarray\<close> (nanobind, an external library):
  \<open>size()\<close> is the product of the extents, \<open>itemsize()\<close> is \<open>(bits + 7) / 8\<close> and
  \<open>nbytes()\<close> is \<open>(bits * size() + 7) / 8\<close>. They are \<open>size_t\<close> values; for an array
  that exists in memory they are below \<open>2 ^ 63\<close> (see \<open>valid_ndarray\<close>).
\<close>

definition arr_ndim :: "ndarray \<Rightarrow> nat" where
  "arr_ndim a = length (arr_shape a)"

definition arr_size :: "ndarray \<Rightarrow> nat" where
  "arr_size a = prod_list (arr_shape a)"

definition itemsize :: "dtype \<Rightarrow> nat" where
  "itemsize d = (unat (bits d) + 7) div 8"

definition nbytes :: "ndarray \<Rightarrow> nat" where
  "nbytes a = (unat (bits (arr_dtype a)) * arr_size a + 7) div 8"

text \<open>
  What the types of nanobind guarantee of an array: one stride per axis, a dimension
  count that is a non-negative \<open>int32_t\<close>, extents that are non-negative \<open>int64_t\<close>, and a
  byte size that fits a signed 64-bit integer.
\<close>

definition valid_ndarray :: "ndarray \<Rightarrow> bool" where
  "valid_ndarray a \<longleftrightarrow>
     length (arr_strides a) = length (arr_shape a) \<and>
     length (arr_shape a) < 2 ^ 31 \<and>
     list_all (\<lambda>n. n < 2 ^ 63) (arr_shape a) \<and>
     nbytes a < 2 ^ 63"

text \<open>
  The element offsets of an array, in row-major order of the index (last axis fastest),
  and the bytes of each element.
\<close>

fun offsets :: "nat list \<Rightarrow> int list \<Rightarrow> int \<Rightarrow> int list" where
  "offsets [] ss base = [base]"
| "offsets (n # ns) (s # ss) base =
     concat (map (\<lambda>i. offsets ns ss (base + int i * s)) [0..<n])"
| "offsets (n # ns) [] base = []"

definition elements :: "ndarray \<Rightarrow> bytes list" where
  "elements a =
     (let w = itemsize (arr_dtype a) in
      map (\<lambda>off. map (\<lambda>j. arr_mem a (off * int w + int j)) [0..<w])
        (offsets (arr_shape a) (arr_strides a) 0))"

text \<open>Row-major (C order) strides of a shape, in elements.\<close>

fun c_strides :: "nat list \<Rightarrow> int list" where
  "c_strides [] = []"
| "c_strides (n # ns) = int (prod_list ns) # c_strides ns"

text \<open>
  An array is laid out contiguously in row-major order when its elements, in index
  order, are the first \<open>nbytes\<close> bytes at \<open>data()\<close>.
\<close>

definition c_contiguous :: "ndarray \<Rightarrow> bool" where
  "c_contiguous a \<longleftrightarrow>
     concat (elements a) = map (\<lambda>i. arr_mem a (int i)) [0..<nbytes a]"

text \<open>
  Equality of arrays as values: same element type, same shape, same elements in
  row-major order. Strides and the memory outside the elements are representation.
\<close>

definition array_equal :: "ndarray \<Rightarrow> ndarray \<Rightarrow> bool" where
  "array_equal a b \<longleftrightarrow>
     arr_dtype a = arr_dtype b \<and> arr_shape a = arr_shape b \<and> elements a = elements b"

fun py_equal :: "'o pyobj \<Rightarrow> 'o pyobj \<Rightarrow> bool" where
  "py_equal (PyObj x) (PyObj y) = (x = y)"
| "py_equal (PyArray a) (PyArray b) = array_equal a b"
| "py_equal _ _ = False"

section \<open>The numpy calls of the decoder\<close>

text \<open>
  numpy is an external library. The decoder calls \<open>frombuffer\<close>, \<open>reshape\<close> and
  \<open>array(copy=True)\<close>; they are modelled after numpy's documentation, on the type
  descriptors the encoder writes: a byte-order character, a kind character and the
  element width in bytes, in decimal. numpy accepts further spellings of a type; here
  they are reported as a Python error.
\<close>

definition is_digit :: "char \<Rightarrow> bool" where
  "is_digit c \<longleftrightarrow> (48::nat) \<le> of_char c \<and> of_char c \<le> (57::nat)"

definition parse_decimal :: "string \<Rightarrow> nat option" where
  "parse_decimal s =
     (if s = [] \<or> \<not> list_all is_digit s then None
      else Some (fold (\<lambda>c n. 10 * n + (of_char c - 48)) s 0))"

fun np_kind :: "char \<Rightarrow> nat \<Rightarrow> dtype_code option" where
  "np_kind k n =
     (if k = CHR ''i'' \<and> n \<in> {1, 2, 4, 8} then Some dInt
      else if k = CHR ''u'' \<and> n \<in> {1, 2, 4, 8} then Some dUInt
      else if k = CHR ''f'' \<and> n \<in> {2, 4, 8} then Some dFloat
      else if k = CHR ''c'' \<and> n \<in> {8, 16} then Some dComplex
      else if k = CHR ''b'' \<and> n = 1 then Some dBool
      else None)"

definition np_dtype :: "string \<Rightarrow> error + dtype" where
  "np_dtype s =
     (case s of
        e # k # ds \<Rightarrow>
          (if e \<in> set ''<|='' then
             (case parse_decimal ds of
                None \<Rightarrow> Inl (PythonError ''TypeError: data type not understood'')
              | Some n \<Rightarrow>
                  (case np_kind k n of
                     None \<Rightarrow> Inl (PythonError ''TypeError: data type not understood'')
                   | Some c \<Rightarrow> Inr \<lparr>code = c, bits = of_nat (8 * n), lanes = 1\<rparr>))
           else Inl (PythonError ''TypeError: data type not understood''))
      | _ \<Rightarrow> Inl (PythonError ''TypeError: data type not understood''))"

text \<open>A fresh array owning \<open>data\<close>, in row-major order.\<close>

definition contig_array :: "dtype \<Rightarrow> nat list \<Rightarrow> bytes \<Rightarrow> ndarray" where
  "contig_array d shp data =
     \<lparr>arr_dtype = d, arr_shape = shp, arr_strides = c_strides shp,
      arr_mem = (\<lambda>i. if 0 \<le> i \<and> nat i < length data then data ! nat i else 0)\<rparr>"

definition np_frombuffer :: "bytes \<Rightarrow> string \<Rightarrow> error + ndarray" where
  "np_frombuffer data descr =
     (case np_dtype descr of
        Inl e \<Rightarrow> Inl e
      | Inr d \<Rightarrow>
          (if length data mod itemsize d \<noteq> 0
           then Inl (PythonError ''ValueError: buffer size must be a multiple of element size'')
           else Inr (contig_array d [length data div itemsize d] data)))"

definition np_reshape :: "ndarray \<Rightarrow> nat list \<Rightarrow> error + ndarray" where
  "np_reshape a shp =
     (if prod_list shp \<noteq> arr_size a
      then Inl (PythonError ''ValueError: cannot reshape array'')
      else Inr (contig_array (arr_dtype a) shp (concat (elements a))))"

definition np_array_copy :: "ndarray \<Rightarrow> ndarray" where
  "np_array_copy a = contig_array (arr_dtype a) (arr_shape a) (concat (elements a))"

section \<open>The codec\<close>

text \<open>\<open>std::ostringstream << n\<close> for a non-negative \<open>int\<close>: its decimal digits.\<close>

function to_decimal :: "nat \<Rightarrow> string" where
  "to_decimal n =
     (if n < 10 then [char_of (48 + n)]
      else to_decimal (n div 10) @ [char_of (48 + n mod 10)])"
  by pat_completeness auto
termination
  by (relation "measure id") auto

declare to_decimal.simps [simp del]

text \<open>The chain of comparisons on \<open>dtype.code\<close> in \<open>serialize_numpy\<close>.\<close>

fun type_code :: "dtype_code \<Rightarrow> error + char" where
  "type_code dInt = Inr CHR ''i''"
| "type_code dUInt = Inr CHR ''u''"
| "type_code dFloat = Inr CHR ''f''"
| "type_code dComplex = Inr CHR ''c''"
| "type_code dBool = Inr CHR ''b''"
| "type_code _ = Inl (RuntimeError ''Unsupported numpy dtype'')"

text \<open>
  \<open>SharedDict::serialize_numpy\<close>. The casts to \<open>uint32_t\<close> and \<open>uint64_t\<close> are
  \<open>of_nat\<close>; the last step copies \<open>nbytes()\<close> bytes from \<open>data()\<close> on, whatever the
  strides.
\<close>

definition serialize_numpy :: "ndarray \<Rightarrow> error + bytes" where
  "serialize_numpy arr =
     (let result = [NUMPY_MARKER];
          d = arr_dtype arr;
          endian = CHR ''<''
      in case type_code (code d) of
           Inl e \<Rightarrow> Inl e
         | Inr tc \<Rightarrow>
             (let dtype_str = [endian, tc] @ to_decimal (unat (bits d) div 8);
                  result = write_le result (of_nat (length dtype_str) :: 32 word);
                  result = result @ map byte_of_char dtype_str;
                  result = write_le result (of_nat (arr_ndim arr) :: 32 word);
                  result = fold (\<lambda>i r. write_le r (of_nat (arr_shape arr ! i) :: 64 word))
                             [0..<arr_ndim arr] result;
                  data_len = nbytes arr;
                  result = write_le result (of_nat data_len :: 64 word)
              in Inr (result @ map (\<lambda>i. arr_mem arr (int i)) [0..<data_len])))"

text \<open>The loop of \<open>deserialize_numpy\<close> that reads \<open>ndim\<close> extents.\<close>

fun read_shape :: "nat \<Rightarrow> bytes \<Rightarrow> error + (64 word list \<times> bytes)" where
  "read_shape 0 ptr = Inr ([], ptr)"
| "read_shape (Suc n) ptr =
     (case read_le ptr of
        Inl e \<Rightarrow> Inl e
      | Inr (s, ptr') \<Rightarrow>
          (case read_shape n ptr' of
             Inl e \<Rightarrow> Inl e
           | Inr (ss, ptr'') \<Rightarrow> Inr (s # ss, ptr'')))"

text \<open>
  \<open>SharedDict::deserialize_numpy(data, size)\<close>. The argument is the \<open>size\<close> bytes at
  \<open>data\<close>. The source never looks at \<open>size\<close>: each declared length is used as read, so
  every read that leaves the bytes is a \<open>Fault\<close>. \<open>size_t\<close> is taken to be 64 bits wide.
\<close>

definition deserialize_numpy :: "bytes \<Rightarrow> error + ndarray" where
  "deserialize_numpy data =
     (case read_le data of
        Inl e \<Rightarrow> Inl e
      | Inr (dtype_len :: 32 word, ptr1) \<Rightarrow>
          if length ptr1 < unat dtype_len then Inl Fault
          else
            let dtype_str = map char_of_byte (take (unat dtype_len) ptr1);
                ptr2 = drop (unat dtype_len) ptr1
            in case read_le ptr2 of
                 Inl e \<Rightarrow> Inl e
               | Inr (ndim :: 32 word, ptr3) \<Rightarrow>
                   (case read_shape (unat ndim) ptr3 of
                      Inl e \<Rightarrow> Inl e
                    | Inr (shape, ptr4) \<Rightarrow>
                        (case read_le ptr4 of
                           Inl e \<Rightarrow> Inl e
                         | Inr (data_len :: 64 word, array_data) \<Rightarrow>
                             if length array_data < unat data_len then Inl Fault
                             else
                               (case np_frombuffer (take (unat data_len) array_data) dtype_str of
                                  Inl e \<Rightarrow> Inl e
                                | Inr arr \<Rightarrow>
                                    (case (if 1 < unat ndim
                                           then np_reshape arr (map unat shape)
                                           else Inr arr) of
                                       Inl e \<Rightarrow> Inl e
                                     | Inr arr' \<Rightarrow> Inr (np_array_copy arr'))))))"

text \<open>
  \<open>SharedDict::serialize_value\<close> and \<open>SharedDict::deserialize_value\<close>. The two functions
  of the pickle module are parameters: \<open>dumps\<close> (with the highest protocol) and \<open>loads\<close>.
\<close>

definition serialize_value :: "('o \<Rightarrow> error + bytes) \<Rightarrow> 'o pyobj \<Rightarrow> error + bytes" where
  "serialize_value dumps obj =
     (case obj of
        PyArray arr \<Rightarrow> serialize_numpy arr
      | PyObj x \<Rightarrow>
          (case dumps x of
             Inl e \<Rightarrow> Inl e
           | Inr pickled \<Rightarrow> Inr ([PICKLE_MARKER] @ pickled)))"

definition deserialize_value :: "(bytes \<Rightarrow> error + 'o pyobj) \<Rightarrow> bytes \<Rightarrow> error + 'o pyobj" where
  "deserialize_value loads data =
     (if data = [] then Inl (RuntimeError ''Empty data cannot be deserialized'')
      else
        let marker = data ! 0
        in if marker = NUMPY_MARKER then
             (case deserialize_numpy (drop 1 data) of
                Inl e \<Rightarrow> Inl e
              | Inr arr \<Rightarrow> Inr (PyArray arr))
           else if marker = PICKLE_MARKER then loads (drop 1 data)
           else loads data)"

section \<open>The core store\<close>

text \<open>
  Modelled from the spec: the class \<open>SharedMemoryDict\<close> of \<open>_core/sharedmemory.hpp\<close>, which
  the adapter calls through \<open>shm_ptr_\<close>, is not among the sources. Its state is modelled as
  the design document describes the Key Index and the Segment Manager: the occupied
  entries in iteration order (at most one per key), the key capacity, the byte capacity
  of the Value Arena, whether this handle is detached, and whether the named resource
  still exists. Locks and the placement of blocks inside the arena are left out.
\<close>

record shm =
  shm_entries :: "(string \<times> bytes) list"
  shm_max_keys :: nat
  shm_arena :: nat
  shm_closed :: bool
  shm_linked :: bool


text \<open>Modelled from the spec: \<open>is_detached(handle)\<close> reports the state of the handle.\<close>

definition shm_is_closed :: "shm \<Rightarrow> bool" where
  "shm_is_closed s = shm_closed s"

text \<open>
  Modelled from the spec: \<open>detach(handle)\<close> unmaps the region for this process only,
  idempotent, always safe.
\<close>

definition shm_close :: "shm \<Rightarrow> shm" where
  "shm_close s = s\<lparr>shm_closed := True\<rparr>"

text \<open>
  Modelled from the spec: \<open>destroy(name)\<close> removes the named OS resource; the invoking
  handle must already be detached, else it fails with \<open>LifecycleError\<close>.
\<close>

definition shm_unlink :: "shm \<Rightarrow> (error + unit) \<times> shm" where
  "shm_unlink s =
     (if \<not> shm_closed s then (Inl (CoreError LifecycleError), s)
      else (Inr (), s\<lparr>shm_linked := False\<rparr>))"

text \<open>
  Modelled from the spec: \<open>lookup(key)\<close> returns the record of the key or absent;
  operating on a detached handle is a \<open>LifecycleError\<close>. The C++ signature, seen at the
  call sites, returns \<open>bool\<close> and fills a string.
\<close>

definition shm_get :: "shm \<Rightarrow> string \<Rightarrow> error + bytes option" where
  "shm_get s key =
     (if shm_closed s then Inl (CoreError LifecycleError)
      else Inr (map_of (shm_entries s) key))"

text \<open>Modelled from the spec: \<open>contains(key)\<close>.\<close>

definition shm_contains :: "shm \<Rightarrow> string \<Rightarrow> error + bool" where
  "shm_contains s key =
     (if shm_closed s then Inl (CoreError LifecycleError)
      else Inr (key \<in> fst ` set (shm_entries s)))"

text \<open>Modelled from the spec: \<open>count()\<close>, the number of occupied entries.\<close>

definition shm_size :: "shm \<Rightarrow> error + nat" where
  "shm_size s =
     (if shm_closed s then Inl (CoreError LifecycleError)
      else Inr (length (shm_entries s)))"


text \<open>
  Modelled from the spec: \<open>insert_or_update(key, record_bytes)\<close>. A new key in a full
  table fails with \<open>CapacityExceeded\<close>; a record the arena has no room for fails with
  \<open>SegmentFull\<close>; otherwise the record is written and the entry updated or created. The
  arena is modelled by its byte capacity alone: fragmentation, which makes a real
  allocator fail earlier, is not. A failed call leaves the store as it was.
\<close>

definition arena_used :: "(string \<times> bytes) list \<Rightarrow> nat" where
  "arena_used es = sum_list (map (\<lambda>e. length (snd e)) es)"

definition shm_set :: "shm \<Rightarrow> string \<Rightarrow> bytes \<Rightarrow> (error + unit) \<times> shm" where
  "shm_set s key record_bytes =
     (if shm_closed s then (Inl (CoreError LifecycleError), s)
      else if key \<notin> fst ` set (shm_entries s) \<and> shm_max_keys s \<le> length (shm_entries s)
        then (Inl (CoreError CapacityExceeded), s)
      else if shm_arena s < arena_used (AList.update key record_bytes (shm_entries s))
        then (Inl (CoreError SegmentFull), s)
      else (Inr (), s\<lparr>shm_entries := AList.update key record_bytes (shm_entries s)\<rparr>))"

text \<open>
  Modelled from the spec: \<open>remove(key)\<close> releases the entry of a present key; for an
  absent key the C++ function returns \<open>false\<close>, which the adapter turns into the
  not-found failure.
\<close>

definition shm_erase :: "shm \<Rightarrow> string \<Rightarrow> (error + bool) \<times> shm" where
  "shm_erase s key =
     (if shm_closed s then (Inl (CoreError LifecycleError), s)
      else if key \<in> fst ` set (shm_entries s)
        then (Inr True, s\<lparr>shm_entries := AList.delete key (shm_entries s)\<rparr>)
      else (Inr False, s))"

section \<open>The adapter: SharedDict\<close>

text \<open>
  The fields of the class, \<open>name_\<close>, \<open>size_\<close>, \<open>created_\<close>, \<open>max_keys_\<close> and \<open>shm_ptr_\<close>
  (a name cannot end in an underscore here). \<open>shm_ptr\<close> is a pointer: \<open>None\<close> is \<open>nullptr\<close>, which only
  the destructor stores. Methods that dereference it without a test are a \<open>Fault\<close> on
  \<open>nullptr\<close>. The pickle module is passed to the methods that use it. A method that
  changes the store returns its result together with the state after it.
\<close>

record SharedDict =
  sd_name :: string
  sd_size :: nat
  sd_created :: bool
  sd_max_keys :: nat
  shm_ptr :: "shm option"

definition close :: "SharedDict \<Rightarrow> SharedDict" where
  "close d =
     (case shm_ptr d of
        None \<Rightarrow> d
      | Some s \<Rightarrow> d\<lparr>shm_ptr := Some (shm_close s)\<rparr>)"

definition unlink :: "SharedDict \<Rightarrow> (error + unit) \<times> SharedDict" where
  "unlink d =
     (case shm_ptr d of
        None \<Rightarrow> (Inr (), d)
      | Some s \<Rightarrow>
          if \<not> shm_is_closed s
          then (Inl (RuntimeError
                  ''Cannot unlink a SharedDict that is still open. Call close() first.''), d)
          else (case shm_unlink s of (r, s') \<Rightarrow> (r, d\<lparr>shm_ptr := Some s'\<rparr>)))"

definition is_closed :: "SharedDict \<Rightarrow> bool" where
  "is_closed d =
     (case shm_ptr d of
        None \<Rightarrow> True
      | Some s \<Rightarrow> shm_is_closed s)"

definition len :: "SharedDict \<Rightarrow> error + nat" where
  "len d = (case shm_ptr d of None \<Rightarrow> Inl Fault | Some s \<Rightarrow> shm_size s)"

definition contains :: "SharedDict \<Rightarrow> string \<Rightarrow> error + bool" where
  "contains d key = (case shm_ptr d of None \<Rightarrow> Inl Fault | Some s \<Rightarrow> shm_contains s key)"

definition getitem ::
  "(bytes \<Rightarrow> error + 'o pyobj) \<Rightarrow> SharedDict \<Rightarrow> string \<Rightarrow> error + 'o pyobj" where
  "getitem loads d key =
     (case shm_ptr d of
        None \<Rightarrow> Inl Fault
      | Some s \<Rightarrow>
          (case shm_get s key of
             Inl e \<Rightarrow> Inl e
           | Inr None \<Rightarrow> Inl (KeyError key)
           | Inr (Some value_data) \<Rightarrow> deserialize_value loads value_data))"

definition setitem ::
  "('o \<Rightarrow> error + bytes) \<Rightarrow> SharedDict \<Rightarrow> string \<Rightarrow> 'o pyobj \<Rightarrow> (error + unit) \<times> SharedDict" where
  "setitem dumps d key v =
     (case serialize_value dumps v of
        Inl e \<Rightarrow> (Inl e, d)
      | Inr value_data \<Rightarrow>
          (case shm_ptr d of
             None \<Rightarrow> (Inl Fault, d)
           | Some s \<Rightarrow>
               (case shm_set s key value_data of
                  (r, s') \<Rightarrow> (r, d\<lparr>shm_ptr := Some s'\<rparr>))))"

definition delitem :: "SharedDict \<Rightarrow> string \<Rightarrow> (error + unit) \<times> SharedDict" where
  "delitem d key =
     (case shm_ptr d of
        None \<Rightarrow> (Inl Fault, d)
      | Some s \<Rightarrow>
          (case shm_erase s key of
             (Inl e, s') \<Rightarrow> (Inl e, d\<lparr>shm_ptr := Some s'\<rparr>)
           | (Inr erased, s') \<Rightarrow>
               if \<not> erased then (Inl (KeyError key), d\<lparr>shm_ptr := Some s'\<rparr>)
               else (Inr (), d\<lparr>shm_ptr := Some s'\<rparr>)))"

text \<open>
  \<open>SharedDict::get\<close>: \<open>catch (const std::exception &)\<close> takes every exception that
  \<open>__getitem__\<close> throws, whatever its class.
\<close>

definition get ::
  "(bytes \<Rightarrow> error + 'o pyobj) \<Rightarrow> SharedDict \<Rightarrow> string \<Rightarrow> 'o pyobj \<Rightarrow> error + 'o pyobj" where
  "get loads d key default_value =
     (case getitem loads d key of
        Inr v \<Rightarrow> Inr v
      | Inl e \<Rightarrow> if is_exception e then Inr default_value else Inl e)"





section \<open>The properties in the words of the design document\<close>


text \<open>
  The element kinds the encoder supports, and the type descriptor of an element type:
  byte order, element kind and element width in bytes.
\<close>

definition supported_code :: "dtype_code \<Rightarrow> bool" where
  "supported_code c \<longleftrightarrow> c \<in> {dInt, dUInt, dFloat, dComplex, dBool}"

definition kind_char :: "dtype_code \<Rightarrow> char" where
  "kind_char c =
     (case c of dInt \<Rightarrow> CHR ''i'' | dUInt \<Rightarrow> CHR ''u'' | dFloat \<Rightarrow> CHR ''f''
      | dComplex \<Rightarrow> CHR ''c'' | dBool \<Rightarrow> CHR ''b'' | _ \<Rightarrow> CHR ''?'')"

definition dtype_descr :: "dtype \<Rightarrow> string" where
  "dtype_descr d = [CHR ''<'', kind_char (code d)] @ to_decimal (unat (bits d) div 8)"

text \<open>The bytes of the backing buffer: \<open>nbytes\<close> bytes from \<open>data()\<close> on.\<close>

definition raw_bytes :: "ndarray \<Rightarrow> bytes" where
  "raw_bytes a = map (\<lambda>i. arr_mem a (int i)) [0..<nbytes a]"

text \<open>
  The element types of numpy arrays that the encoder supports: one lane, and a width
  that numpy has for the kind.
\<close>

definition numpy_dtype :: "dtype \<Rightarrow> bool" where
  "numpy_dtype d \<longleftrightarrow>
     lanes d = 1 \<and>
     (case code d of
        dInt \<Rightarrow> bits d \<in> {8, 16, 32, 64}
      | dUInt \<Rightarrow> bits d \<in> {8, 16, 32, 64}
      | dFloat \<Rightarrow> bits d \<in> {16, 32, 64}
      | dComplex \<Rightarrow> bits d \<in> {64, 128}
      | dBool \<Rightarrow> bits d = 8
      | _ \<Rightarrow> False)"

text \<open>
  The values for which the round trip is proved below: an object that the pickle
  module writes and reads back as itself, and an array of a numpy element type with at
  least one axis whose elements lie contiguously in row-major order.
\<close>

definition pickles :: "('o \<Rightarrow> error + bytes) \<Rightarrow> (bytes \<Rightarrow> error + 'o pyobj) \<Rightarrow> 'o \<Rightarrow> bool" where
  "pickles dumps loads x \<longleftrightarrow>
     (case dumps x of Inl e \<Rightarrow> False | Inr pickled \<Rightarrow> loads pickled = Inr (PyObj x))"

definition supported_array :: "ndarray \<Rightarrow> bool" where
  "supported_array a \<longleftrightarrow>
     valid_ndarray a \<and> numpy_dtype (arr_dtype a) \<and> 1 \<le> arr_ndim a \<and> c_contiguous a"

fun supported_value ::
  "('o \<Rightarrow> error + bytes) \<Rightarrow> (bytes \<Rightarrow> error + 'o pyobj) \<Rightarrow> 'o pyobj \<Rightarrow> bool" where
  "supported_value dumps loads (PyObj x) = pickles dumps loads x"
| "supported_value dumps loads (PyArray a) = supported_array a"


section \<open>Example values\<close>

text \<open>
  Arrays of unsigned bytes over a small buffer: a 2 by 3 matrix in row-major order, the
  transpose of a 2 by 2 matrix (a view with strides 1 and 2), every second element of a
  vector of four, and a scalar array without axes.
\<close>

definition mem_of :: "bytes \<Rightarrow> int \<Rightarrow> byte" where
  "mem_of data = (\<lambda>i. if 0 \<le> i \<and> nat i < length data then data ! nat i else 0)"

definition uint8 :: dtype where
  "uint8 = \<lparr>code = dUInt, bits = 8, lanes = 1\<rparr>"

definition ex_matrix :: ndarray where
  "ex_matrix = \<lparr>arr_dtype = uint8, arr_shape = [2, 3], arr_strides = [3, 1],
                 arr_mem = mem_of [1, 2, 3, 4, 5, 6]\<rparr>"

definition ex_transposed :: ndarray where
  "ex_transposed = \<lparr>arr_dtype = uint8, arr_shape = [2, 2], arr_strides = [1, 2],
                     arr_mem = mem_of [1, 2, 3, 4]\<rparr>"

definition ex_strided :: ndarray where
  "ex_strided = \<lparr>arr_dtype = uint8, arr_shape = [2], arr_strides = [2],
                  arr_mem = mem_of [1, 2, 3, 4]\<rparr>"

definition ex_scalar :: ndarray where
  "ex_scalar = \<lparr>arr_dtype = uint8, arr_shape = [], arr_strides = [],
                 arr_mem = mem_of [7]\<rparr>"

text \<open>
  A stand-in for the pickle module on objects that are byte strings: \<open>dumps\<close> puts a
  protocol byte in front, \<open>loads\<close> takes it off and fails on anything else.
\<close>

definition ex_dumps :: "bytes \<Rightarrow> error + bytes" where
  "ex_dumps x = Inr (0x80 # x)"

definition ex_loads :: "bytes \<Rightarrow> error + bytes pyobj" where
  "ex_loads p =
     (case p of
        [] \<Rightarrow> Inl (PythonError ''EOFError: Ran out of input'')
      | b # x \<Rightarrow> if b = 0x80 then Inr (PyObj x) else Inl (PythonError ''UnpicklingError''))"

text \<open>
  An open dictionary with one entry; one whose store another writer has left two broken
  records in (an empty one, and a marker without payload); a record that declares 16
  payload bytes and holds none; and a store with \<open>2 ^ 31\<close> entries.
\<close>

definition ex_store :: shm where
  "ex_store = \<lparr>shm_entries = [(''a'', [0x00, 0x80, 0x05])], shm_max_keys = 4, shm_arena = 4096,
               shm_closed = False, shm_linked = True\<rparr>"

definition ex_dict :: SharedDict where
  "ex_dict = \<lparr>sd_name = ''s1'', sd_size = 65536, sd_created = True, sd_max_keys = 4,
              shm_ptr = Some ex_store\<rparr>"

definition ex_corrupt :: SharedDict where
  "ex_corrupt =
     ex_dict\<lparr>shm_ptr := Some (ex_store\<lparr>shm_entries := [(''k'', []), (''p'', [0x00])]\<rparr>)\<rparr>"

definition ex_truncated :: bytes where
  "ex_truncated = [0x01, 3, 0, 0, 0, 0x3C, 0x66, 0x38, 1, 0, 0, 0, 2, 0, 0, 0, 0, 0, 0, 0,
                   16, 0, 0, 0, 0, 0, 0, 0]"



section \<open>Decoding: the empty record and the legacy fallback\<close>

text \<open>
  Claim C10. For the empty byte string \<open>deserialize_value\<close> fails with the runtime error
  "Empty data cannot be deserialized". It does so whatever the pickle module would do:
  the test comes before the marker is read, and the record is not handed to the opaque
  deserializer.
\<close>

theorem deserialize_value_empty:
  "deserialize_value loads [] = Inl (RuntimeError ''Empty data cannot be deserialized'')"
  by (simp add: deserialize_value_def)

text \<open>
  Claim C4. A non-empty record whose first byte is neither \<open>0x00\<close> nor \<open>0x01\<close> is given
  to the opaque deserializer whole, first byte included: the result of
  \<open>deserialize_value\<close> is the result of \<open>loads\<close> on the entire byte string.
\<close>

theorem deserialize_value_legacy:
  assumes "data \<noteq> []" and "hd data \<noteq> 0x00" and "hd data \<noteq> 0x01"
  shows "deserialize_value loads data = loads data"
proof -
  from assms(1) obtain b bs where d: "data = b # bs"
    by (cases data) auto
  with assms(2,3) have "b \<noteq> NUMPY_MARKER" and "b \<noteq> PICKLE_MARKER"
    by (simp_all add: NUMPY_MARKER_def PICKLE_MARKER_def)
  then show ?thesis
    by (simp add: deserialize_value_def d)
qed

theorem deserialize_value_legacy_witness:
  "[0x80, 0x04, 0x4B] \<noteq> ([] :: bytes) \<and> hd [0x80, 0x04, 0x4B :: byte] \<noteq> 0x00 \<and>
   hd [0x80, 0x04, 0x4B :: byte] \<noteq> 0x01 \<and>
   deserialize_value (\<lambda>bs. Inr (PyObj bs)) [0x80, 0x04, 0x4B] = Inr (PyObj [0x80, 0x04, 0x4B])"
  using deserialize_value_legacy [of "[0x80, 0x04, 0x4B]" "\<lambda>bs. Inr (PyObj bs)"]
  by simp

section \<open>Little-endian integers: writing and reading back\<close>

lemma fold_snoc_map: "fold (\<lambda>i b. b @ [f i]) xs buf = buf @ map f xs"
  by (induction xs arbitrary: buf) auto

lemma and_ff: "(x :: 'a::len word) AND 0xFF = take_bit 8 x"
proof -
  have "(0xFF :: 'a word) = mask 8"
    by (simp add: mask_eq_exp_minus_1)
  then show ?thesis
    by (simp add: take_bit_eq_mask)
qed

lemma write_le_map:
  "write_le buf (v :: 'a::len word) =
     buf @ map (\<lambda>i. ucast (take_bit 8 (drop_bit (i * 8) v))) [0..<LENGTH('a) div 8]"
  by (simp add: write_le_def fold_snoc_map and_ff)

lemma write_le_append: "write_le buf v = buf @ write_le [] v"
  by (simp add: write_le_map)

lemma length_write_le: "length (write_le [] (v :: 'a::len word)) = LENGTH('a) div 8"
  by (simp add: write_le_map)

text \<open>One step of the loop of \<open>read_le\<close> sets the bits of byte \<open>k\<close> of the value.\<close>

lemma bit_read_step:
  "bit ((v :: 'a::len word) OR push_bit (k * 8) (ucast (b :: byte))) n
   \<longleftrightarrow> bit v n \<or> (n < LENGTH('a) \<and> n div 8 = k \<and> bit b (n mod 8))"
proof (cases "n div 8 = k")
  case True
  then have "k * 8 \<le> n" and "n - k * 8 = n mod 8"
    by arith+
  then show ?thesis
    using True by (auto simp: bit_simps dest: bit_imp_le_length)
next
  case False
  then have "\<not> (k * 8 \<le> n \<and> n - k * 8 < 8)"
    by arith
  then show ?thesis
    using False by (auto simp: bit_simps dest: bit_imp_le_length)
qed

lemma bit_read_fold:
  "bit (fold (\<lambda>i v. v OR push_bit (i * 8) (ucast (ptr ! i :: byte))) [0..<k] (0 :: 'a::len word)) n
   \<longleftrightarrow> n < LENGTH('a) \<and> n div 8 < k \<and> bit (ptr ! (n div 8)) (n mod 8)"
proof (induction k)
  case 0
  then show ?case by simp
next
  case (Suc k)
  then show ?case
    by (auto simp: bit_read_step less_Suc_eq)
qed

lemma read_le_write_le:
  assumes "8 dvd LENGTH('a::len)"
  shows "read_le (write_le [] (v :: 'a word) @ rest) = Inr (v, rest)"
proof -
  let ?k = "LENGTH('a) div 8"
  let ?ptr = "write_le [] v @ rest"
  have len: "length (write_le [] v) = ?k"
    by (rule length_write_le)
  have nth: "?ptr ! i = ucast (take_bit 8 (drop_bit (i * 8) v))" if "i < ?k" for i
    using that by (simp add: write_le_map nth_append)
  have "fold (\<lambda>i w. w OR push_bit (i * 8) (ucast (?ptr ! i))) [0..<?k] (0 :: 'a word) = v"
  proof (rule bit_word_eqI)
    fix n assume n: "n < LENGTH('a)"
    from assms obtain m where "LENGTH('a) = 8 * m"
      by (auto simp: dvd_def)
    with n have nk: "n div 8 < ?k"
      by simp
    have idx: "n div 8 * 8 + n mod 8 = n"
      by simp
    show "bit (fold (\<lambda>i w. w OR push_bit (i * 8) (ucast (?ptr ! i))) [0..<?k] (0 :: 'a word)) n
            = bit v n"
      using n nk by (simp add: bit_read_fold nth bit_simps idx)
  qed
  then show ?thesis
    by (simp add: read_le_def Let_def len)
qed

lemma read_le32: "read_le (write_le [] (v :: 32 word) @ rest) = Inr (v, rest)"
  by (rule read_le_write_le) simp

lemma read_le64: "read_le (write_le [] (v :: 64 word) @ rest) = Inr (v, rest)"
  by (rule read_le_write_le) simp





section \<open>Decimal digits and type descriptors\<close>

lemma to_decimal_digit: "n < 10 \<Longrightarrow> to_decimal n = [char_of (48 + n)]"
  by (simp add: to_decimal.simps)

lemma length_to_decimal: "n < 100 \<Longrightarrow> length (to_decimal n) \<le> 2"
  by (subst to_decimal.simps) (simp add: to_decimal_digit)

lemma length_dtype_descr: "length (dtype_descr d) \<le> 4"
proof -
  have "unat (bits d) < 256"
    using unsigned_less [of "bits d", where ?'a = nat] by simp
  then have "unat (bits d) div 8 < 100"
    by simp
  then show ?thesis
    using length_to_decimal by (simp add: dtype_descr_def)
qed

lemma digit_chars:
  "char_of (49::nat) = CHR ''1''" "char_of (50::nat) = CHR ''2''" "char_of (52::nat) = CHR ''4''"
  "char_of (54::nat) = CHR ''6''" "char_of (56::nat) = CHR ''8''"
  by (simp_all add: char_of_def bit_iff_odd)

lemma to_decimal_widths:
  "to_decimal (Suc 0) = ''1''" "to_decimal 2 = ''2''" "to_decimal 4 = ''4''"
  "to_decimal 8 = ''8''" "to_decimal 16 = ''16''"
proof -
  show "to_decimal (Suc 0) = ''1''" "to_decimal 2 = ''2''" "to_decimal 4 = ''4''"
    "to_decimal 8 = ''8''"
    by (simp_all add: to_decimal_digit digit_chars)
  show "to_decimal 16 = ''16''"
    by (subst to_decimal.simps) (simp add: to_decimal_digit digit_chars)
qed

lemma parse_widths:
  "parse_decimal ''1'' = Some 1" "parse_decimal ''2'' = Some 2" "parse_decimal ''4'' = Some 4"
  "parse_decimal ''8'' = Some 8" "parse_decimal ''16'' = Some 16"
  by (simp_all add: parse_decimal_def is_digit_def)

text \<open>numpy reads the descriptor of a numpy element type back as that type.\<close>

lemma np_dtype_descr: "numpy_dtype d \<Longrightarrow> np_dtype (dtype_descr d) = Inr d"
  apply (cases d)
  subgoal for c b l
    apply (cases c)
          apply (auto simp: numpy_dtype_def dtype_descr_def kind_char_def np_dtype_def
        to_decimal_widths parse_widths)
    done
  done



section \<open>The record that the encoder writes\<close>

lemma fold_index: "fold (\<lambda>i r. g r (xs ! i)) [0..<length xs] r = fold (\<lambda>x r. g r x) xs r"
proof (induction xs arbitrary: r rule: rev_induct)
  case Nil
  then show ?case by simp
next
  case (snoc x xs)
  have "fold (\<lambda>i r. g r ((xs @ [x]) ! i)) [0..<length xs] r
          = fold (\<lambda>i r. g r (xs ! i)) [0..<length xs] r"
    by (rule fold_cong) (auto simp: nth_append)
  then show ?case
    using snoc by simp
qed

lemma fold_write_shape:
  "fold (\<lambda>x r. write_le r (f x)) xs r = r @ concat (map (\<lambda>x. write_le [] (f x)) xs)"
proof (induction xs arbitrary: r)
  case Nil
  then show ?case by simp
next
  case (Cons x xs)
  then show ?case
    by (simp add: write_le_append [of "r"])
qed

lemma type_code_supported: "supported_code c \<Longrightarrow> type_code c = Inr (kind_char c)"
  by (cases c) (simp_all add: supported_code_def kind_char_def)

lemma serialize_numpy_words:
  assumes "supported_code (code (arr_dtype arr))"
  shows "serialize_numpy arr = Inr
     ([NUMPY_MARKER] @ write_le [] (of_nat (length (dtype_descr (arr_dtype arr))) :: 32 word)
      @ map byte_of_char (dtype_descr (arr_dtype arr))
      @ write_le [] (of_nat (length (arr_shape arr)) :: 32 word)
      @ concat (map (\<lambda>n. write_le [] (of_nat n :: 64 word)) (arr_shape arr))
      @ write_le [] (of_nat (nbytes arr) :: 64 word)
      @ raw_bytes arr)"
proof -
  have shp: "fold (\<lambda>i r. write_le r (of_nat (arr_shape arr ! i) :: 64 word))
               [0..<length (arr_shape arr)] r
      = r @ concat (map (\<lambda>n. write_le [] (of_nat n :: 64 word)) (arr_shape arr))" for r
    using fold_index [of "\<lambda>r n. write_le r (of_nat n :: 64 word)" "arr_shape arr" r]
    by (simp add: fold_write_shape)
  show ?thesis
    using assms
    apply (simp add: serialize_numpy_def type_code_supported Let_def arr_ndim_def shp
        raw_bytes_def dtype_descr_def)
    apply (simp add: write_le_append [of "_ # _"] write_le_append [of "_ @ _"])
    done
qed


lemma ser_matrix:
  "serialize_numpy ex_matrix =
     Inr [1, 3, 0, 0, 0, 60, 117, 49, 2, 0, 0, 0, 2, 0, 0, 0, 0, 0, 0, 0, 3, 0, 0, 0, 0, 0, 0, 0,
          6, 0, 0, 0, 0, 0, 0, 0, 1, 2, 3, 4, 5, 6]"
  by code_simp


section \<open>Row-major layout\<close>

lemma upt_shift: "[m..<m + w] = map (\<lambda>j. m + j) [0..<w]"
  by (induction w) simp_all

lemma concat_blocks:
  "concat (map (\<lambda>k. map (\<lambda>j. f (k * w + j)) [0..<w]) [0..<N]) = map f [0..<N * w]"
proof (induction N)
  case 0
  then show ?case by simp
next
  case (Suc N)
  have "map f [0..<N * w + w] = map f [0..<N * w] @ map f [N * w..<N * w + w]"
    by (simp only: upt_add_eq_append [OF le0] map_append)
  also have "map f [N * w..<N * w + w] = map (\<lambda>j. f (N * w + j)) [0..<w]"
    by (subst upt_shift) (simp add: comp_def)
  finally show ?case
    using Suc by (simp add: add.commute)
qed

lemma offsets_c_strides:
  "offsets shp (c_strides shp) base = map (\<lambda>k. base + int k) [0..<prod_list shp]"
proof (induction shp arbitrary: base)
  case Nil
  then show ?case by simp
next
  case (Cons n ns)
  let ?P = "prod_list ns"
  have "offsets (n # ns) (c_strides (n # ns)) base =
          concat (map (\<lambda>i. map (\<lambda>k. base + int (i * ?P + k)) [0..<?P]) [0..<n])"
    by (simp add: Cons algebra_simps)
  also have "\<dots> = map (\<lambda>m. base + int m) [0..<n * ?P]"
    by (rule concat_blocks)
  finally show ?case
    by simp
qed

text \<open>The elements of a fresh row-major array, one after the other, are its data.\<close>

lemma elements_contig_array:
  assumes "length data = prod_list shp * itemsize d"
  shows "concat (elements (contig_array d shp data)) = data"
proof -
  let ?w = "itemsize d" and ?N = "prod_list shp"
  let ?mem = "\<lambda>i::int. if 0 \<le> i \<and> nat i < length data then data ! nat i else 0"
  have "elements (contig_array d shp data) =
          map (\<lambda>k. map (\<lambda>j. ?mem (int k * int ?w + int j)) [0..<?w]) [0..<?N]"
    by (simp add: elements_def contig_array_def offsets_c_strides Let_def comp_def)
  also have "\<dots> = map (\<lambda>k. map (\<lambda>j. ?mem (int (k * ?w + j))) [0..<?w]) [0..<?N]"
    by (simp only: of_nat_add of_nat_mult)
  finally have "concat (elements (contig_array d shp data)) =
          concat (map (\<lambda>k. map (\<lambda>j. ?mem (int (k * ?w + j))) [0..<?w]) [0..<?N])"
    by (rule arg_cong)
  also have "\<dots> = map (\<lambda>i. ?mem (int i)) [0..<?N * ?w]"
    by (rule concat_blocks)
  also have "\<dots> = map (\<lambda>i. data ! i) [0..<length data]"
    using assms by (intro map_cong) auto
  also have "\<dots> = data"
    by (rule map_nth)
  finally show ?thesis .
qed

text \<open>Two lists of chunks of one positive length with the same concatenation are equal.\<close>

lemma chunks_eq:
  assumes "0 < w" and "\<forall>x \<in> set xs. length x = w" and "\<forall>y \<in> set ys. length y = w"
    and "concat xs = concat ys"
  shows "xs = ys"
  using assms(2-)
proof (induction xs arbitrary: ys)
  case Nil
  show ?case
  proof (cases ys)
    case Nil
    then show ?thesis by simp
  next
    case (Cons y ys')
    with Nil assms(1) show ?thesis by auto
  qed
next
  case (Cons x xs)
  show ?case
  proof (cases ys)
    case Nil
    with Cons.prems assms(1) show ?thesis by auto
  next
    case (Cons y ys')
    with Cons.prems have "x @ concat xs = y @ concat ys'" and "length x = length y"
      by simp_all
    then have "x = y" and "concat xs = concat ys'"
      by simp_all
    with Cons.IH [of ys'] Cons.prems Cons show ?thesis
      by simp
  qed
qed

lemma length_elements: "\<forall>x \<in> set (elements a). length x = itemsize (arr_dtype a)"
  by (auto simp: elements_def Let_def)

lemma numpy_dtype_bits:
  assumes "numpy_dtype d"
  shows "unat (bits d) = 8 * itemsize d" and "0 < itemsize d"
  using assms by (auto simp: numpy_dtype_def itemsize_def split: dtype_code.splits)

lemma nbytes_numpy:
  assumes "numpy_dtype (arr_dtype a)"
  shows "nbytes a = arr_size a * itemsize (arr_dtype a)"
proof -
  define m where "m = arr_size a * itemsize (arr_dtype a)"
  have "unat (bits (arr_dtype a)) * arr_size a = 8 * m"
    unfolding m_def by (subst numpy_dtype_bits(1) [OF assms]) simp
  then have "nbytes a = (8 * m + 7) div 8"
    by (simp only: nbytes_def)
  then show ?thesis
    by (simp add: m_def)
qed

lemma numpy_dtype_supported: "numpy_dtype d \<Longrightarrow> supported_code (code d)"
  by (auto simp: numpy_dtype_def supported_code_def split: dtype_code.splits)

text \<open>An array whose strides are the row-major strides of its shape is contiguous.\<close>

lemma c_strides_contiguous:
  assumes "arr_strides a = c_strides (arr_shape a)" and "numpy_dtype (arr_dtype a)"
  shows "c_contiguous a"
proof -
  let ?w = "itemsize (arr_dtype a)" and ?N = "arr_size a"
  have "elements a = map (\<lambda>k. map (\<lambda>j. arr_mem a (int k * int ?w + int j)) [0..<?w]) [0..<?N]"
    by (simp add: elements_def assms(1) offsets_c_strides Let_def comp_def arr_size_def)
  also have "\<dots> = map (\<lambda>k. map (\<lambda>j. arr_mem a (int (k * ?w + j))) [0..<?w]) [0..<?N]"
    by (simp only: of_nat_add of_nat_mult)
  finally have "concat (elements a) =
      concat (map (\<lambda>k. map (\<lambda>j. arr_mem a (int (k * ?w + j))) [0..<?w]) [0..<?N])"
    by (rule arg_cong)
  also have "\<dots> = map (\<lambda>i. arr_mem a (int i)) [0..<?N * ?w]"
    by (rule concat_blocks)
  finally show ?thesis
    by (simp add: c_contiguous_def nbytes_numpy [OF assms(2)])
qed

section \<open>Decoding what the encoder wrote\<close>

lemma char_of_byte_of_char: "char_of_byte (byte_of_char c) = c"
proof -
  have "of_char c < (256 :: nat)"
    by (cases c) (simp add: of_char_def)
  then show ?thesis
    by (simp add: char_of_byte_def byte_of_char_def unat_of_nat)
qed

lemma read_shape_write:
  "read_shape (length ws) (concat (map (\<lambda>w. write_le [] w) ws) @ rest) = Inr (ws, rest)"
proof (induction ws)
  case Nil
  then show ?case by simp
next
  case (Cons w ws)
  have "read_le (write_le [] w @ (concat (map (\<lambda>w. write_le [] w) ws) @ rest)) =
          Inr (w, concat (map (\<lambda>w. write_le [] w) ws) @ rest)"
    by (rule read_le64)
  with Cons show ?case
    by simp
qed

lemma np_frombuffer_raw:
  assumes "numpy_dtype (arr_dtype a)"
  shows "np_frombuffer (raw_bytes a) (dtype_descr (arr_dtype a)) =
           Inr (contig_array (arr_dtype a) [arr_size a] (raw_bytes a))"
  using numpy_dtype_bits(2) [OF assms]
  by (simp add: np_frombuffer_def np_dtype_descr [OF assms] raw_bytes_def nbytes_numpy [OF assms])

text \<open>
  The end of \<open>deserialize_numpy\<close>: with at least one axis, reshaping (more than one
  axis) or not (one axis) and copying gives the row-major array of the shape written.
\<close>

lemma decode_tail:
  assumes nd: "numpy_dtype (arr_dtype a)" and dim: "1 \<le> length (arr_shape a)"
  shows "(case (if 1 < length (arr_shape a)
                then np_reshape (contig_array (arr_dtype a) [arr_size a] (raw_bytes a)) (arr_shape a)
                else Inr (contig_array (arr_dtype a) [arr_size a] (raw_bytes a))) of
            Inl e \<Rightarrow> Inl e
          | Inr arr' \<Rightarrow> Inr (np_array_copy arr'))
         = Inr (contig_array (arr_dtype a) (arr_shape a) (raw_bytes a))"
proof -
  let ?d = "arr_dtype a" and ?raw = "raw_bytes a"
  have len: "length ?raw = arr_size a * itemsize ?d"
    by (simp add: raw_bytes_def nbytes_numpy [OF nd])
  have flat: "concat (elements (contig_array ?d [arr_size a] ?raw)) = ?raw"
    by (rule elements_contig_array) (simp add: len)
  have shaped: "concat (elements (contig_array ?d (arr_shape a) ?raw)) = ?raw"
    by (rule elements_contig_array) (simp add: len arr_size_def)
  have copy: "np_array_copy (contig_array ?d (arr_shape a) ?raw)
                = contig_array ?d (arr_shape a) ?raw"
    by (simp add: np_array_copy_def shaped) (simp add: contig_array_def)
  show ?thesis
  proof (cases "1 < length (arr_shape a)")
    case True
    have "np_reshape (contig_array ?d [arr_size a] ?raw) (arr_shape a) =
            Inr (contig_array ?d (arr_shape a) ?raw)"
      by (simp add: np_reshape_def flat) (simp add: contig_array_def arr_size_def)
    with True copy show ?thesis
      by simp
  next
    case False
    with dim obtain n where "arr_shape a = [n]"
      by (cases "arr_shape a") auto
    then have "[arr_size a] = arr_shape a"
      by (simp add: arr_size_def)
    with False copy show ?thesis
      by simp
  qed
qed

lemma deserialize_serialize_numpy:
  assumes v: "valid_ndarray a" and nd: "numpy_dtype (arr_dtype a)" and dim: "1 \<le> arr_ndim a"
  shows "\<exists>bs. serialize_numpy a = Inr (NUMPY_MARKER # bs) \<and>
              deserialize_numpy bs = Inr (contig_array (arr_dtype a) (arr_shape a) (raw_bytes a))"
proof -
  let ?d = "arr_dtype a" and ?raw = "raw_bytes a"
  let ?descr = "dtype_descr ?d"
  let ?ws = "map (\<lambda>n. of_nat n :: 64 word) (arr_shape a)"
  define tail3 where "tail3 = write_le [] (of_nat (nbytes a) :: 64 word) @ ?raw"
  define tail2 where "tail2 = write_le [] (of_nat (length (arr_shape a)) :: 32 word)
      @ concat (map (\<lambda>w. write_le [] w) ?ws) @ tail3"
  define bs where "bs = write_le [] (of_nat (length ?descr) :: 32 word)
      @ map byte_of_char ?descr @ tail2"
  have ser: "serialize_numpy a = Inr (NUMPY_MARKER # bs)"
    by (simp add: serialize_numpy_words [OF numpy_dtype_supported [OF nd]] bs_def tail2_def
          tail3_def comp_def)
  have uL: "unat (of_nat (length ?descr) :: 32 word) = length ?descr"
    using length_dtype_descr [of ?d] by (simp add: unat_of_nat)
  have uD: "unat (of_nat (length (arr_shape a)) :: 32 word) = length (arr_shape a)"
    using v by (simp add: valid_ndarray_def unat_of_nat)
  have uP: "unat (of_nat (nbytes a) :: 64 word) = nbytes a"
    using v by (simp add: valid_ndarray_def unat_of_nat)
  have "\<forall>n \<in> set (arr_shape a). n < 2 ^ 64"
    using v by (auto simp: valid_ndarray_def list_all_iff)
  then have uS: "map unat ?ws = arr_shape a"
    by (simp add: map_idI unat_of_nat comp_def)
  have chars: "map char_of_byte (map byte_of_char ?descr) = ?descr"
    by (simp add: comp_def char_of_byte_of_char)
  have chars': "map (char_of_byte \<circ> byte_of_char) ?descr = ?descr"
    by (rule map_idI) (simp add: char_of_byte_of_char)
  have shape: "read_shape (length (arr_shape a)) (concat (map (\<lambda>w. write_le [] w) ?ws) @ tail3)
                 = Inr (?ws, tail3)"
    using read_shape_write [of ?ws tail3] by simp
  have lraw: "length ?raw = nbytes a"
    by (simp add: raw_bytes_def)
  then have tk: "take (nbytes a) ?raw = ?raw"
    by simp
  have "deserialize_numpy bs = Inr (contig_array ?d (arr_shape a) ?raw)"
    unfolding deserialize_numpy_def bs_def
    apply (simp only: read_le32 sum.case prod.case uL length_append length_map)
    apply (simp add: chars Let_def)
    apply (simp only: tail2_def read_le32 sum.case prod.case uD shape)
    apply (simp only: tail3_def read_le64 sum.case prod.case uP lraw)
    apply (simp only: chars' uS less_irrefl if_False tk np_frombuffer_raw [OF nd] sum.case)
    apply (rule decode_tail [OF nd])
    using dim apply (simp add: arr_ndim_def)
    done
  with ser show ?thesis
    by blast
qed

lemma array_equal_contig:
  assumes nd: "numpy_dtype (arr_dtype a)" and c: "c_contiguous a"
  shows "array_equal (contig_array (arr_dtype a) (arr_shape a) (raw_bytes a)) a"
proof -
  let ?b = "contig_array (arr_dtype a) (arr_shape a) (raw_bytes a)"
  have d: "arr_dtype ?b = arr_dtype a" and s: "arr_shape ?b = arr_shape a"
    by (simp_all add: contig_array_def)
  have "concat (elements ?b) = raw_bytes a"
    by (rule elements_contig_array) (simp add: raw_bytes_def nbytes_numpy [OF nd] arr_size_def)
  also have "\<dots> = concat (elements a)"
    using c by (simp add: c_contiguous_def raw_bytes_def)
  finally have "elements ?b = elements a"
    using numpy_dtype_bits(2) [OF nd] length_elements [of ?b] length_elements [of a]
    by (intro chunks_eq [where w = "itemsize (arr_dtype a)"]) (simp_all add: d)
  with d s show ?thesis
    by (simp add: array_equal_def)
qed

lemma roundtrip_array:
  assumes "supported_array a"
  shows "\<exists>bs a'. serialize_numpy a = Inr (NUMPY_MARKER # bs) \<and> deserialize_numpy bs = Inr a' \<and>
                 array_equal a' a"
proof -
  from assms have a: "valid_ndarray a" "numpy_dtype (arr_dtype a)" "1 \<le> arr_ndim a"
    "c_contiguous a"
    by (simp_all add: supported_array_def)
  from deserialize_serialize_numpy [OF a(1-3)] array_equal_contig [OF a(2,4)] show ?thesis
    by blast
qed

lemma roundtrip_value:
  assumes "supported_value dumps loads v"
  shows "\<exists>bs v'. serialize_value dumps v = Inr bs \<and> deserialize_value loads bs = Inr v' \<and>
                 py_equal v' v"
proof (cases v)
  case (PyObj x)
  with assms obtain p where p: "dumps x = Inr p" "loads p = Inr (PyObj x)"
    by (auto simp: pickles_def split: sum.splits)
  then have "serialize_value dumps v = Inr (PICKLE_MARKER # p)"
    and "deserialize_value loads (PICKLE_MARKER # p) = Inr (PyObj x)"
    by (simp_all add: PyObj serialize_value_def deserialize_value_def PICKLE_MARKER_def
          NUMPY_MARKER_def)
  with PyObj show ?thesis
    by auto
next
  case (PyArray a)
  with assms have "supported_array a"
    by simp
  from roundtrip_array [OF this] obtain bs a' where
    bs: "serialize_numpy a = Inr (NUMPY_MARKER # bs)" "deserialize_numpy bs = Inr a'"
      "array_equal a' a"
    by blast
  then have "serialize_value dumps v = Inr (NUMPY_MARKER # bs)"
    and "deserialize_value loads (NUMPY_MARKER # bs) = Inr (PyArray a')"
    by (simp_all add: PyArray serialize_value_def deserialize_value_def)
  with PyArray bs(3) show ?thesis
    by auto
qed

section \<open>The round trip through the codec\<close>

lemma ex_matrix_supported: "supported_array ex_matrix"
proof -
  have "valid_ndarray ex_matrix"
    by (simp add: valid_ndarray_def ex_matrix_def nbytes_def arr_size_def uint8_def)
  moreover have "numpy_dtype (arr_dtype ex_matrix)"
    by (simp add: numpy_dtype_def ex_matrix_def uint8_def)
  moreover have "1 \<le> arr_ndim ex_matrix"
    by (simp add: arr_ndim_def ex_matrix_def)
  moreover have "c_contiguous ex_matrix"
    by code_simp
  ultimately show ?thesis
    by (simp add: supported_array_def)
qed

lemma ex_pickles: "pickles ex_dumps ex_loads [1, 2, 3]"
  by (simp add: pickles_def ex_dumps_def ex_loads_def)

text \<open>
  Claim C3, amended. Encoding and then decoding yields a value equal to the original
  for every object that the pickle module writes and reads back as itself, and for
  every array of a numpy element type that has at least one axis and whose elements lie
  contiguously in row-major order at \<open>data()\<close>. For such an array,
  \<open>deserialize_numpy\<close> applied to what \<open>serialize_numpy\<close> wrote after the marker
  returns an array of the same element type, the same shape, axis by axis, and the same
  elements in row-major order.
\<close>

theorem codec_roundtrip:
  "(supported_value dumps loads v \<longrightarrow>
      (\<exists>bs v'. serialize_value dumps v = Inr bs \<and> deserialize_value loads bs = Inr v' \<and>
               py_equal v' v))
   \<and> (supported_array a \<longrightarrow>
      (\<exists>bs a'. serialize_numpy a = Inr (NUMPY_MARKER # bs) \<and> deserialize_numpy bs = Inr a' \<and>
               arr_dtype a' = arr_dtype a \<and> arr_shape a' = arr_shape a \<and>
               elements a' = elements a))"
  using roundtrip_value [of dumps loads v] roundtrip_array [of a]
  by (simp add: array_equal_def)

text \<open>The round trip of an opaque object and of the 2 by 3 matrix.\<close>

theorem codec_roundtrip_witness:
  "supported_value ex_dumps ex_loads (PyObj [1, 2, 3]) \<and>
   (case serialize_value ex_dumps (PyObj [1, 2, 3]) of
      Inl e \<Rightarrow> False
    | Inr bs \<Rightarrow> deserialize_value ex_loads bs = Inr (PyObj [1, 2, 3])) \<and>
   supported_array ex_matrix \<and>
   (case serialize_numpy ex_matrix of
      Inl e \<Rightarrow> False
    | Inr bs \<Rightarrow>
        map_sum id (\<lambda>a'. (arr_dtype a' = arr_dtype ex_matrix, arr_shape a', elements a'))
          (deserialize_numpy (drop 1 bs))
        = Inr (True, [2, 3], [[1], [2], [3], [4], [5], [6]]))"
proof -
  have s: "supported_value ex_dumps ex_loads (PyObj [1, 2, 3])"
    using ex_pickles by simp
  have e: "elements ex_matrix = [[1], [2], [3], [4], [5], [6]]"
    by code_simp
  have sh: "arr_shape ex_matrix = [2, 3]"
    by (simp add: ex_matrix_def)
  from codec_roundtrip [of ex_dumps ex_loads "PyObj [1, 2, 3]" ex_matrix] s ex_matrix_supported
  obtain bs v' cs a' where
    o: "serialize_value ex_dumps (PyObj [1, 2, 3]) = Inr bs"
       "deserialize_value ex_loads bs = Inr v'" "py_equal v' (PyObj [1, 2, 3])"
    and a: "serialize_numpy ex_matrix = Inr (NUMPY_MARKER # cs)" "deserialize_numpy cs = Inr a'"
       "arr_dtype a' = arr_dtype ex_matrix" "arr_shape a' = arr_shape ex_matrix"
       "elements a' = elements ex_matrix"
    by blast
  from o(3) have "v' = PyObj [1, 2, 3]"
    by (cases v') simp_all
  with o a s ex_matrix_supported show ?thesis
    by (simp add: e sh)
qed

lemma ser_transposed:
  "serialize_numpy ex_transposed =
     Inr [1, 3, 0, 0, 0, 60, 117, 49, 2, 0, 0, 0, 2, 0, 0, 0, 0, 0, 0, 0, 2, 0, 0, 0, 0, 0, 0, 0,
          4, 0, 0, 0, 0, 0, 0, 0, 1, 2, 3, 4]"
  by code_simp

lemma de_transposed:
  "map_sum id (\<lambda>a. (arr_shape a, elements a))
     (deserialize_numpy [3, 0, 0, 0, 60, 117, 49, 2, 0, 0, 0, 2, 0, 0, 0, 0, 0, 0, 0,
        2, 0, 0, 0, 0, 0, 0, 0, 4, 0, 0, 0, 0, 0, 0, 0, 1, 2, 3, 4])
   = Inr ([2, 2], [[1], [2], [3], [4]])"
  by code_simp

text \<open>
  The transposed view is an array of a supported element type, and its round trip
  changes the order of the elements: in index order they are 1, 3, 2, 4; the encoder
  copies the buffer as it lies, and the decoder returns 1, 2, 3, 4 in the same shape.
\<close>

theorem codec_roundtrip_counterexample:
  "valid_ndarray ex_transposed \<and> numpy_dtype (arr_dtype ex_transposed) \<and>
   arr_shape ex_transposed = [2, 2] \<and> elements ex_transposed = [[1], [3], [2], [4]] \<and>
   (case serialize_numpy ex_transposed of
      Inl e \<Rightarrow> False
    | Inr bs \<Rightarrow>
        map_sum id (\<lambda>a. (arr_shape a, elements a)) (deserialize_numpy (drop 1 bs))
          = Inr ([2, 2], [[1], [2], [3], [4]]))"
proof -
  have "valid_ndarray ex_transposed"
    by (simp add: valid_ndarray_def ex_transposed_def nbytes_def arr_size_def uint8_def)
  moreover have "numpy_dtype (arr_dtype ex_transposed)"
    by (simp add: numpy_dtype_def ex_transposed_def uint8_def)
  moreover have "elements ex_transposed = [[1], [3], [2], [4]]"
    by code_simp
  moreover have "arr_shape ex_transposed = [2, 2]"
    by (simp add: ex_transposed_def)
  ultimately show ?thesis
    using de_transposed by (simp add: ser_transposed)
qed

text \<open>
  An array without axes comes back with one axis of extent 1: the decoder reshapes only
  when the dimension count is above 1.
\<close>

lemma scalar_array_shape:
  "arr_shape ex_scalar = [] \<and>
   (case serialize_numpy ex_scalar of
      Inl e \<Rightarrow> False
    | Inr bs \<Rightarrow> map_sum id arr_shape (deserialize_numpy (drop 1 bs)) = Inr [1])"
proof -
  have "serialize_numpy ex_scalar =
          Inr [1, 3, 0, 0, 0, 60, 117, 49, 0, 0, 0, 0, 1, 0, 0, 0, 0, 0, 0, 0, 7]"
    by code_simp
  moreover have "map_sum id arr_shape
      (deserialize_numpy [3, 0, 0, 0, 60, 117, 49, 0, 0, 0, 0, 1, 0, 0, 0, 0, 0, 0, 0, 7]) = Inr [1]"
    by code_simp
  ultimately show ?thesis
    by (simp add: ex_scalar_def)
qed

section \<open>Records shorter than they declare\<close>

text \<open>
  \<open>deserialize_numpy\<close> itself throws nothing: when it does not return an array, either
  numpy raised, or a read left the bytes of the record.
\<close>

lemma deserialize_numpy_errors:
  assumes "deserialize_numpy data = Inl e"
  shows "e = Fault \<or> (\<exists>m. e = PythonError m)"
proof -
  have rl: "(read_le ptr :: error + ('a::len word \<times> bytes)) = Inl e' \<Longrightarrow> e' = Fault" for ptr e'
    by (simp add: read_le_def Let_def split: if_splits)
  have rs: "read_shape n ptr = Inl e' \<Longrightarrow> e' = Fault" for n ptr e'
    by (induction n arbitrary: ptr e') (auto split: sum.splits dest: rl)
  have dt: "np_dtype s = Inl e' \<Longrightarrow> \<exists>m. e' = PythonError m" for s e'
    by (auto simp: np_dtype_def split: list.splits if_splits option.splits)
  have fb: "np_frombuffer bs s = Inl e' \<Longrightarrow> \<exists>m. e' = PythonError m" for bs s e'
    by (auto simp: np_frombuffer_def split: sum.splits if_splits dest: dt)
  have rsh: "np_reshape a shp = Inl e' \<Longrightarrow> \<exists>m. e' = PythonError m" for a shp e'
    by (auto simp: np_reshape_def split: if_splits)
  from assms show ?thesis
    unfolding deserialize_numpy_def Let_def
    by (auto split: sum.splits if_splits prod.splits dest: rl rs fb rsh)
qed

lemma short_record_fault: "length data < 4 \<Longrightarrow> deserialize_numpy data = Inl Fault"
  by (simp add: deserialize_numpy_def read_le_def)

text \<open>
  Claim C2. The record \<open>ex_truncated\<close> begins with marker \<open>0x01\<close>, declares the type
  \<open><f8\<close>, one axis of extent 2 and 16 payload bytes, and ends there. Decoding it does
  not fail with an exception: \<open>deserialize_numpy\<close> takes the declared 16 bytes from
  beyond the end of the record, which is the \<open>Fault\<close> of this model, whatever the pickle
  module is.
\<close>

theorem truncated_record_fault:
  "deserialize_value loads ex_truncated = Inl Fault \<and> \<not> is_exception Fault"
proof -
  have "map_sum id (\<lambda>_. ()) (deserialize_numpy (drop 1 ex_truncated)) = Inl Fault"
    by code_simp
  then have "deserialize_numpy (drop 1 ex_truncated) = Inl Fault"
    by (cases "deserialize_numpy (drop 1 ex_truncated)") simp_all
  then show ?thesis
    by (simp add: deserialize_value_def ex_truncated_def NUMPY_MARKER_def)
qed

section \<open>The dictionary: get with a default\<close>

lemma getitem_open:
  assumes "shm_ptr d = Some s" and "\<not> shm_closed s"
  shows "getitem loads d key =
           (case map_of (shm_entries s) key of
              None \<Rightarrow> Inl (KeyError key)
            | Some value_data \<Rightarrow> deserialize_value loads value_data)"
  using assms by (simp add: getitem_def shm_get_def)

text \<open>
  Claim C1, amended. On an open dictionary \<open>get\<close> returns the decoded value when the key
  is present and its record decodes. It returns the default of the caller when the key
  is absent, and also when the key is present and decoding its record throws: every
  exception of \<open>__getitem__\<close> becomes the default, none is passed on. Only a \<open>Fault\<close>,
  which is no exception, is outside this.
\<close>

theorem get_default_on_any_exception:
  assumes "shm_ptr d = Some s" and "\<not> shm_closed s"
  shows "get loads d key dflt =
           (case map_of (shm_entries s) key of
              None \<Rightarrow> Inr dflt
            | Some value_data \<Rightarrow>
                (case deserialize_value loads value_data of
                   Inr v \<Rightarrow> Inr v
                 | Inl e \<Rightarrow> if is_exception e then Inr dflt else Inl e))"
  by (simp add: get_def getitem_open [OF assms] split: option.splits)

text \<open>An absent key gives the default; a present key with a sound record gives its value.\<close>

theorem get_default_witness:
  "shm_ptr ex_dict = Some ex_store \<and> \<not> shm_closed ex_store \<and>
   get ex_loads ex_dict ''zz'' (PyObj [0x2A]) = Inr (PyObj [0x2A]) \<and>
   get ex_loads ex_dict ''a'' (PyObj [0x2A]) = Inr (PyObj [0x05])"
proof -
  have h: "shm_ptr ex_dict = Some ex_store" "\<not> shm_closed ex_store"
    by (simp_all add: ex_dict_def ex_store_def)
  show ?thesis
    using h get_default_on_any_exception [OF h, of ex_loads "''zz''" "PyObj [0x2A]"]
      get_default_on_any_exception [OF h, of ex_loads "''a''" "PyObj [0x2A]"]
    by (simp add: ex_store_def deserialize_value_def ex_loads_def PICKLE_MARKER_def
          NUMPY_MARKER_def)
qed

text \<open>
  Two present keys whose records do not decode: for the empty record \<open>__getitem__\<close>
  throws the runtime error of \<open>deserialize_value\<close>, for the marker without payload the
  pickle module raises; \<open>get\<close> returns the default for both.
\<close>

theorem get_default_counterexample:
  "contains ex_corrupt ''k'' = Inr True \<and>
   getitem ex_loads ex_corrupt ''k'' = Inl (RuntimeError ''Empty data cannot be deserialized'') \<and>
   get ex_loads ex_corrupt ''k'' (PyObj [0x2A]) = Inr (PyObj [0x2A]) \<and>
   contains ex_corrupt ''p'' = Inr True \<and>
   getitem ex_loads ex_corrupt ''p'' = Inl (PythonError ''EOFError: Ran out of input'') \<and>
   get ex_loads ex_corrupt ''p'' (PyObj [0x2A]) = Inr (PyObj [0x2A])"
  by (simp add: ex_corrupt_def ex_dict_def ex_store_def contains_def shm_contains_def getitem_def
        shm_get_def get_def deserialize_value_def ex_loads_def PICKLE_MARKER_def NUMPY_MARKER_def)

section \<open>The dictionary: set, get and delete\<close>

lemma setitem_ok:
  assumes "setitem dumps d k v = (Inr (), d')"
  shows "\<exists>s value_data. shm_ptr d = Some s \<and> \<not> shm_closed s \<and>
           serialize_value dumps v = Inr value_data \<and>
           d' = d\<lparr>shm_ptr := Some (s\<lparr>shm_entries := AList.update k value_data (shm_entries s)\<rparr>)\<rparr>"
  using assms
  by (auto simp: setitem_def shm_set_def split: sum.splits option.splits if_splits)

text \<open>
  Claim C5, amended. For every key \<open>k\<close> and every value \<open>v\<close> that is a picklable object
  or an array of a numpy element type with at least one axis and contiguous row-major
  layout: when \<open>set(k, v)\<close> succeeds, a following \<open>get(k)\<close> returns a value equal to \<open>v\<close>.
\<close>

theorem set_then_get:
  assumes "supported_value dumps loads v" and "setitem dumps d k v = (Inr (), d')"
  shows "\<exists>v'. getitem loads d' k = Inr v' \<and> py_equal v' v"
proof -
  from setitem_ok [OF assms(2)] obtain s value_data where
    s: "shm_ptr d = Some s" "\<not> shm_closed s" "serialize_value dumps v = Inr value_data"
       "d' = d\<lparr>shm_ptr := Some (s\<lparr>shm_entries := AList.update k value_data (shm_entries s)\<rparr>)\<rparr>"
    by blast
  from roundtrip_value [OF assms(1)] s(3) obtain v' where
    v': "deserialize_value loads value_data = Inr v'" "py_equal v' v"
    by auto
  have "getitem loads d' k = deserialize_value loads value_data"
    using s(2) by (simp add: s(4) getitem_def shm_get_def update_conv')
  with v' show ?thesis
    by simp
qed

text \<open>Storing the 2 by 3 matrix under a new key and reading it back.\<close>

theorem set_then_get_witness:
  "supported_value ex_dumps ex_loads (PyArray ex_matrix) \<and>
   fst (setitem ex_dumps ex_dict ''m'' (PyArray ex_matrix)) = Inr () \<and>
   map_sum id (\<lambda>v'. py_equal v' (PyArray ex_matrix))
     (getitem ex_loads (snd (setitem ex_dumps ex_dict ''m'' (PyArray ex_matrix))) ''m'') = Inr True"
proof -
  have s: "supported_value ex_dumps ex_loads (PyArray ex_matrix)"
    using ex_matrix_supported by simp
  have f: "fst (setitem ex_dumps ex_dict ''m'' (PyArray ex_matrix)) = Inr ()"
    by (simp add: setitem_def serialize_value_def ser_matrix ex_dict_def ex_store_def shm_set_def
          arena_used_def)
  then have "setitem ex_dumps ex_dict ''m'' (PyArray ex_matrix) =
      (Inr (), snd (setitem ex_dumps ex_dict ''m'' (PyArray ex_matrix)))"
    by (simp add: prod_eq_iff)
  from set_then_get [OF s this] s f show ?thesis
    by auto
qed

lemma ser_strided:
  "serialize_numpy ex_strided =
     Inr [1, 3, 0, 0, 0, 60, 117, 49, 1, 0, 0, 0, 2, 0, 0, 0, 0, 0, 0, 0,
          2, 0, 0, 0, 0, 0, 0, 0, 1, 2]"
  by code_simp

lemma de_strided:
  "map_sum id elements
     (deserialize_numpy [3, 0, 0, 0, 60, 117, 49, 1, 0, 0, 0, 2, 0, 0, 0, 0, 0, 0, 0,
          2, 0, 0, 0, 0, 0, 0, 0, 1, 2]) = Inr [[1], [2]]"
  by code_simp

lemma el_strided: "elements ex_strided = [[1], [3]]"
  by code_simp

text \<open>
  Every second element of the vector 1, 2, 3, 4 is the array 1, 3. Storing it succeeds,
  and reading it back gives the array 1, 2.
\<close>

theorem set_then_get_counterexample:
  "fst (setitem ex_dumps ex_dict ''v'' (PyArray ex_strided)) = Inr () \<and>
   elements ex_strided = [[1], [3]] \<and>
   map_sum id (\<lambda>v'. case v' of PyArray a \<Rightarrow> elements a | PyObj x \<Rightarrow> [])
     (getitem ex_loads (snd (setitem ex_dumps ex_dict ''v'' (PyArray ex_strided))) ''v'')
     = Inr [[1], [2]]"
proof -
  have set: "setitem ex_dumps ex_dict ''v'' (PyArray ex_strided) =
      (Inr (), ex_dict\<lparr>shm_ptr := Some (ex_store\<lparr>shm_entries :=
         [(''a'', [0x00, 0x80, 0x05]),
          (''v'', [1, 3, 0, 0, 0, 60, 117, 49, 1, 0, 0, 0, 2, 0, 0, 0, 0, 0, 0, 0,
                   2, 0, 0, 0, 0, 0, 0, 0, 1, 2])]\<rparr>)\<rparr>)"
    by (simp add: setitem_def serialize_value_def ser_strided ex_dict_def ex_store_def shm_set_def
          arena_used_def)
  have "map_sum id (\<lambda>v'. case v' of PyArray a \<Rightarrow> elements a | PyObj x \<Rightarrow> [])
     (getitem ex_loads (snd (setitem ex_dumps ex_dict ''v'' (PyArray ex_strided))) ''v'')
     = map_sum id elements
         (deserialize_numpy [3, 0, 0, 0, 60, 117, 49, 1, 0, 0, 0, 2, 0, 0, 0, 0, 0, 0, 0,
          2, 0, 0, 0, 0, 0, 0, 0, 1, 2])"
    unfolding set snd_conv
    by (simp add: getitem_def shm_get_def ex_store_def ex_dict_def deserialize_value_def
          NUMPY_MARKER_def split: sum.splits)
  also note de_strided
  finally show ?thesis
    by (simp add: set el_strided)
qed

text \<open>
  Claim C7. After \<open>set(k, v)\<close> has succeeded, \<open>delete(k)\<close> succeeds, and then
  \<open>contains(k)\<close> is false and \<open>get(k)\<close> fails with the key error. Deleting a key that the
  dictionary does not contain fails with the key error and returns the dictionary as it
  was.
\<close>

theorem set_delete_get:
  "(setitem dumps d k v = (Inr (), d1) \<longrightarrow>
      (\<exists>d2. delitem d1 k = (Inr (), d2) \<and> contains d2 k = Inr False \<and>
            getitem loads d2 k = Inl (KeyError k)))
   \<and> (contains d k = Inr False \<longrightarrow> delitem d k = (Inl (KeyError k), d))"
proof (intro conjI impI)
  assume "setitem dumps d k v = (Inr (), d1)"
  from setitem_ok [OF this] obtain s value_data where
    s: "shm_ptr d = Some s" "\<not> shm_closed s"
       "d1 = d\<lparr>shm_ptr := Some (s\<lparr>shm_entries := AList.update k value_data (shm_entries s)\<rparr>)\<rparr>"
    by blast
  let ?es = "AList.update k value_data (shm_entries s)"
  let ?d2 = "d\<lparr>shm_ptr := Some (s\<lparr>shm_entries := AList.delete k ?es\<rparr>)\<rparr>"
  have "k \<in> fst ` set ?es"
    by (simp add: dom_update)
  then have "delitem d1 k = (Inr (), ?d2)"
    using s(2) by (simp add: s(3) delitem_def shm_erase_def)
  moreover have "contains ?d2 k = Inr False"
    using s(2) by (simp add: contains_def shm_contains_def delete_notin_dom)
  moreover have "getitem loads ?d2 k = Inl (KeyError k)"
    using s(2) by (simp add: getitem_def shm_get_def delete_conv')
  ultimately show "\<exists>d2. delitem d1 k = (Inr (), d2) \<and> contains d2 k = Inr False \<and>
            getitem loads d2 k = Inl (KeyError k)"
    by blast
next
  assume "contains d k = Inr False"
  then obtain s where "shm_ptr d = Some s" "\<not> shm_closed s" "k \<notin> fst ` set (shm_entries s)"
    by (auto simp: contains_def shm_contains_def split: option.splits if_splits)
  then show "delitem d k = (Inl (KeyError k), d)"
    by (simp add: delitem_def shm_erase_def)
qed

text \<open>Setting and deleting the key \<open>b\<close>, and deleting the absent key \<open>zz\<close>.\<close>

theorem set_delete_get_witness:
  "fst (setitem ex_dumps ex_dict ''b'' (PyObj [0x07])) = Inr () \<and>
   fst (delitem (snd (setitem ex_dumps ex_dict ''b'' (PyObj [0x07]))) ''b'') = Inr () \<and>
   contains (snd (delitem (snd (setitem ex_dumps ex_dict ''b'' (PyObj [0x07]))) ''b'')) ''b''
     = Inr False \<and>
   getitem ex_loads (snd (delitem (snd (setitem ex_dumps ex_dict ''b'' (PyObj [0x07]))) ''b'')) ''b''
     = Inl (KeyError ''b'') \<and>
   contains ex_dict ''zz'' = Inr False \<and>
   delitem ex_dict ''zz'' = (Inl (KeyError ''zz''), ex_dict)"
proof -
  have f: "fst (setitem ex_dumps ex_dict ''b'' (PyObj [0x07])) = Inr ()"
    by (simp add: setitem_def serialize_value_def ex_dumps_def ex_dict_def ex_store_def shm_set_def
          arena_used_def)
  then have s: "setitem ex_dumps ex_dict ''b'' (PyObj [0x07]) =
      (Inr (), snd (setitem ex_dumps ex_dict ''b'' (PyObj [0x07])))"
    by (simp add: prod_eq_iff)
  have c: "contains ex_dict ''zz'' = Inr False"
    by (simp add: contains_def shm_contains_def ex_dict_def ex_store_def)
  from set_delete_get [of ex_dumps ex_dict "''b''" "PyObj [0x07]"
      "snd (setitem ex_dumps ex_dict ''b'' (PyObj [0x07]))" ex_loads] s
  obtain d2 where d2:
    "delitem (snd (setitem ex_dumps ex_dict ''b'' (PyObj [0x07]))) ''b'' = (Inr (), d2)"
    "contains d2 ''b'' = Inr False" "getitem ex_loads d2 ''b'' = Inl (KeyError ''b'')"
    by blast
  from set_delete_get [of ex_dumps ex_dict "''zz''" "PyObj [0x07]" ex_dict ex_loads] c
  have "delitem ex_dict ''zz'' = (Inl (KeyError ''zz''), ex_dict)"
    by blast
  with f c d2 show ?thesis
    by simp
qed

section \<open>The dictionary: close and unlink\<close>

text \<open>
  Claim C8. \<open>unlink\<close> on a dictionary that is not closed fails with the runtime error
  "Cannot unlink a SharedDict that is still open. Call close() first." (the lifecycle
  failure of the design document) and leaves the dictionary and its segment as they
  were. After \<open>close\<close> the dictionary is closed, and \<open>unlink\<close> succeeds and removes the
  named segment.
\<close>

theorem unlink_requires_close:
  "(\<not> is_closed d \<longrightarrow>
      unlink d = (Inl (RuntimeError
        ''Cannot unlink a SharedDict that is still open. Call close() first.''), d))
   \<and> (shm_ptr d = Some s \<longrightarrow>
        is_closed (close d) \<and>
        unlink (close d) =
          (Inr (), d\<lparr>shm_ptr := Some (s\<lparr>shm_closed := True, shm_linked := False\<rparr>)\<rparr>))"
  by (auto simp: is_closed_def unlink_def close_def shm_is_closed_def shm_close_def
        shm_unlink_def split: option.splits)

text \<open>The open example dictionary: unlink fails; after close it removes the segment.\<close>

theorem unlink_requires_close_witness:
  "\<not> is_closed ex_dict \<and>
   unlink ex_dict = (Inl (RuntimeError
      ''Cannot unlink a SharedDict that is still open. Call close() first.''), ex_dict) \<and>
   shm_ptr ex_dict = Some ex_store \<and> is_closed (close ex_dict) \<and>
   unlink (close ex_dict) =
     (Inr (), ex_dict\<lparr>shm_ptr := Some (ex_store\<lparr>shm_closed := True, shm_linked := False\<rparr>)\<rparr>)"
proof -
  have o: "\<not> is_closed ex_dict" and p: "shm_ptr ex_dict = Some ex_store"
    by (simp_all add: is_closed_def shm_is_closed_def ex_dict_def ex_store_def)
  with unlink_requires_close [of ex_dict ex_store] show ?thesis
    by simp
qed

section \<open>Statistics\<close>








end
